theory Spec2Isabelle
  imports Main "HOL-Library.Multiset"
begin

section \<open>Data model\<close>

text \<open>
  The scanner page imports its data types from \<^verbatim>\<open>@/types\<close>. The fields below are the
  ones the two components read: \<^verbatim>\<open>IssueCard.tsx\<close> reads every field of an issue, and
  \<^verbatim>\<open>ScannerPage.tsx\<close> reads \<^verbatim>\<open>url\<close>, \<^verbatim>\<open>scanDate\<close>, \<^verbatim>\<open>score\<close>, \<^verbatim>\<open>category\<close>,
  \<^verbatim>\<open>issues\<close> and \<^verbatim>\<open>complianceBadges\<close> of a result. The keys of \<^verbatim>\<open>severityConfig\<close> and
  of \<^verbatim>\<open>severityOrder\<close> give the three severities.
\<close>

datatype Severity = Critical | Moderate | Minor

record AccessibilityIssue =
  issue_id :: string
  severity :: Severity
  wcagRule :: string
  wcagLevel :: string
  title :: string
  explanation :: string
  affectedGroups :: "string list"
  suggestedFix :: string
  codeSnippet :: string

text \<open>
  Modelled from the spec: the declaration of a compliance badge is not among the sources;
  the page reads only its \<^verbatim>\<open>id\<close>. The spec gives it an id, a label and the level attained.
\<close>

record ComplianceBadge =
  badge_id :: string
  badge_label :: string
  badge_status :: string

record ScanResult =
  scanned_url :: string
  scanDate :: string
  score :: int
  category :: string
  issues :: "AccessibilityIssue list"
  complianceBadges :: "ComplianceBadge list"

section \<open>Issue ranking\<close>

text \<open>
  \<^verbatim>\<open>const severityOrder = { critical: 0, moderate: 1, minor: 2 }\<close> and the comparator
  \<^verbatim>\<open>(a, b) => severityOrder[a.severity] - severityOrder[b.severity]\<close>.
\<close>

fun severityOrder :: "Severity \<Rightarrow> int" where
  "severityOrder Critical = 0"
| "severityOrder Moderate = 1"
| "severityOrder Minor = 2"

definition compareSeverity :: "AccessibilityIssue \<Rightarrow> AccessibilityIssue \<Rightarrow> int" where
  "compareSeverity a b = severityOrder (severity a) - severityOrder (severity b)"

text \<open>
  \<^verbatim>\<open>Array.prototype.sort(comparefn)\<close> is the platform's: it sorts the array in place,
  returns that same array, and is stable. It is modelled as the stable insertion sort
  under the comparator: an element goes in front of the first element of the already
  sorted rest that it does not compare greater than.
\<close>

fun array_insert :: "('a \<Rightarrow> 'a \<Rightarrow> int) \<Rightarrow> 'a \<Rightarrow> 'a list \<Rightarrow> 'a list" where
  "array_insert cmp x [] = [x]"
| "array_insert cmp x (y # ys) =
     (if cmp x y \<le> 0 then x # y # ys else y # array_insert cmp x ys)"

fun array_sort :: "('a \<Rightarrow> 'a \<Rightarrow> int) \<Rightarrow> 'a list \<Rightarrow> 'a list" where
  "array_sort cmp [] = []"
| "array_sort cmp (x # xs) = array_insert cmp x (array_sort cmp xs)"

text \<open>
  \<^verbatim>\<open>const sortedIssues = result?.issues.sort(...)\<close>, evaluated in the component body, on
  every render. The array sorted is the one the stored result holds, so the result is
  returned with it: the first component is the result as stored after the call, the
  second the value of \<^verbatim>\<open>sortedIssues\<close> (the same array). With no result the optional
  chain stops and \<^verbatim>\<open>sortedIssues\<close> is undefined.
\<close>

definition rank :: "AccessibilityIssue list \<Rightarrow> AccessibilityIssue list" where
  "rank xs = array_sort compareSeverity xs"

definition sortedIssues ::
  "ScanResult option \<Rightarrow> ScanResult option \<times> AccessibilityIssue list option" where
  "sortedIssues res =
     (case res of
        None \<Rightarrow> (None, None)
      | Some r \<Rightarrow> (Some (r\<lparr>issues := rank (issues r)\<rparr>), Some (rank (issues r))))"

text \<open>An issue of a given severity and id, the other fields empty, for concrete inputs.\<close>

definition issue_of :: "Severity \<Rightarrow> string \<Rightarrow> AccessibilityIssue" where
  "issue_of s i =
     \<lparr>issue_id = i, severity = s, wcagRule = ''1.1.1'', wcagLevel = ''A'', title = [],
      explanation = [], affectedGroups = [], suggestedFix = [], codeSnippet = []\<rparr>"

section \<open>Strings\<close>

text \<open>
  A string is modelled as an Isabelle string. Its characters stand for the code units
  0 to 255; the code units above that, which a JavaScript string can also hold, are
  outside the model.

  \<^verbatim>\<open>input.startsWith('http')\<close> compares the first four code units, case-sensitively.
  \<^verbatim>\<open>input.trim()\<close> removes the leading and trailing white space and line terminators of
  ECMAScript: tab, line feed, vertical tab, form feed, carriage return, space and
  no-break space in this range.
\<close>

definition startsWith :: "string \<Rightarrow> string \<Rightarrow> bool" where
  "startsWith s pre = (take (length pre) s = pre)"

definition isWhiteSpace :: "char \<Rightarrow> bool" where
  "isWhiteSpace c = (of_char c \<in> {9, 10, 11, 12, 13, 32, 160 :: nat})"

definition trim :: "string \<Rightarrow> string" where
  "trim s = rev (dropWhile isWhiteSpace (rev (dropWhile isWhiteSpace s)))"

section \<open>The URL constructor\<close>

text \<open>
  \<^verbatim>\<open>new URL(urlToTest)\<close> is the platform's: it runs the basic URL parser of the WHATWG
  URL Standard with no base URL and throws when the parser returns failure. The page
  uses nothing of the URL but whether the constructor throws, so the model computes
  that verdict only. It follows the parser's states for an input without a base:

  \<^item> leading and trailing C0 controls and spaces are removed, then every tab and newline;
  \<^item> scheme start and scheme state: a letter, then letters, digits, \<^verbatim>\<open>+\<close>, \<^verbatim>\<open>-\<close>, \<^verbatim>\<open>.\<close>
    up to a colon; anything else is the no-scheme state, a failure without a base;
  \<^item> a special scheme other than \<^verbatim>\<open>file\<close> skips every slash and backslash and enters
    the authority state; another scheme enters it after \<^verbatim>\<open>//\<close> and has a path, which
    never fails, otherwise; \<^verbatim>\<open>file\<close> has its own host state;
  \<^item> authority state: the host and port are what follows the last \<^verbatim>\<open>@\<close> of the
    authority; credentials with nothing after them fail;
  \<^item> host state: the host ends at the first colon outside square brackets; an empty
    host fails before a port, and for a special scheme always;
  \<^item> port state: digits only, at most 65535;
  \<^item> host parser: an opaque host (scheme not special) fails on a forbidden host code
    point; a domain fails when empty or on a forbidden domain code point, and when it
    ends in a number it must parse as an IPv4 address;
  \<^item> path, query and fragment never fail.

  Three forms of host are not modelled, and the verdict says so: an IPv6 address in
  square brackets, and a domain that needs percent-decoding or the Unicode processing
  of domain-to-ASCII (a percent sign, a code unit above 127, a label starting \<^verbatim>\<open>xn--\<close>).
  For every other domain that processing is ASCII lower-casing.
\<close>

datatype verdict = Parses | Throws | Unmodelled

definition is_ascii_alpha :: "char \<Rightarrow> bool" where
  "is_ascii_alpha c =
     (let n = of_char c :: nat in (65 \<le> n \<and> n \<le> 90) \<or> (97 \<le> n \<and> n \<le> 122))"

definition is_ascii_digit :: "char \<Rightarrow> bool" where
  "is_ascii_digit c = (let n = of_char c :: nat in 48 \<le> n \<and> n \<le> 57)"

definition ascii_lower :: "char \<Rightarrow> char" where
  "ascii_lower c =
     (let n = of_char c :: nat in if 65 \<le> n \<and> n \<le> 90 then char_of (n + 32) else c)"

definition is_c0_control_or_space :: "char \<Rightarrow> bool" where
  "is_c0_control_or_space c = (of_char c \<le> (32 :: nat))"

definition is_tab_or_newline :: "char \<Rightarrow> bool" where
  "is_tab_or_newline c = (of_char c \<in> {9, 10, 13 :: nat})"

definition url_cleanup :: "string \<Rightarrow> string" where
  "url_cleanup s =
     filter (\<lambda>c. \<not> is_tab_or_newline c)
       (rev (dropWhile is_c0_control_or_space (rev (dropWhile is_c0_control_or_space s))))"

definition is_scheme_char :: "char \<Rightarrow> bool" where
  "is_scheme_char c =
     (is_ascii_alpha c \<or> is_ascii_digit c \<or> c = CHR ''+'' \<or> c = CHR ''-'' \<or> c = CHR ''.'')"

text \<open>The lower-cased scheme and what follows its colon; \<open>None\<close> when there is no scheme.\<close>

fun split_scheme :: "string \<Rightarrow> (string \<times> string) option" where
  "split_scheme [] = None"
| "split_scheme (c # cs) =
     (if is_ascii_alpha c then
        (case dropWhile is_scheme_char cs of
           [] \<Rightarrow> None
         | d # rest \<Rightarrow>
             if d = CHR '':'' then Some (map ascii_lower (c # takeWhile is_scheme_char cs), rest)
             else None)
      else None)"

definition is_special :: "string \<Rightarrow> bool" where
  "is_special sch = (sch \<in> {''ftp'', ''file'', ''http'', ''https'', ''ws'', ''wss''})"

definition is_slash :: "char \<Rightarrow> bool" where
  "is_slash c = (c = CHR ''/'' \<or> c = CHR 0x5C)"

definition is_authority_end :: "bool \<Rightarrow> char \<Rightarrow> bool" where
  "is_authority_end special c =
     (c = CHR ''/'' \<or> c = CHR ''?'' \<or> c = CHR ''#'' \<or> (special \<and> c = CHR 0x5C))"

definition forbidden_host_code_point :: "char \<Rightarrow> bool" where
  "forbidden_host_code_point c =
     (of_char c \<in> {0, 9, 10, 13, 32 :: nat} \<or> c \<in> set ''#/:<>?@[]^|'' \<or> c = CHR 0x5C)"

definition forbidden_domain_code_point :: "char \<Rightarrow> bool" where
  "forbidden_domain_code_point c =
     (forbidden_host_code_point c \<or> of_char c \<le> (31 :: nat) \<or> c = CHR ''%''
      \<or> of_char c = (127 :: nat))"

text \<open>Strictly splitting a string on a delimiter: the result is never empty.\<close>

fun split_on :: "char \<Rightarrow> string \<Rightarrow> string list" where
  "split_on d [] = [[]]"
| "split_on d (c # cs) =
     (if c = d then [] # split_on d cs
      else (case split_on d cs of [] \<Rightarrow> [[c]] | p # ps \<Rightarrow> (c # p) # ps))"

definition digit_value :: "char \<Rightarrow> nat option" where
  "digit_value c =
     (let n = of_char c :: nat in
      if 48 \<le> n \<and> n \<le> 57 then Some (n - 48)
      else if 65 \<le> n \<and> n \<le> 70 then Some (n - 55)
      else if 97 \<le> n \<and> n \<le> 102 then Some (n - 87)
      else None)"

fun parse_radix :: "nat \<Rightarrow> nat \<Rightarrow> string \<Rightarrow> nat option" where
  "parse_radix R acc [] = Some acc"
| "parse_radix R acc (c # cs) =
     (case digit_value c of
        None \<Rightarrow> None
      | Some v \<Rightarrow> if v < R then parse_radix R (acc * R + v) cs else None)"

text \<open>The IPv4 number parser: hexadecimal after \<^verbatim>\<open>0x\<close>, octal after \<^verbatim>\<open>0\<close>, else decimal.\<close>

definition ipv4_number :: "string \<Rightarrow> nat option" where
  "ipv4_number input =
     (if input = [] then None
      else if 2 \<le> length input \<and> (take 2 input = ''0x'' \<or> take 2 input = ''0X'')
        then parse_radix 16 0 (drop 2 input)
      else if 2 \<le> length input \<and> take 1 input = ''0'' then parse_radix 8 0 (drop 1 input)
      else parse_radix 10 0 input)"

definition ends_in_a_number :: "string \<Rightarrow> bool" where
  "ends_in_a_number input =
     (let parts = split_on (CHR ''.'') input in
      if last parts = [] \<and> length parts = 1 then False
      else
        (let l = last (if last parts = [] then butlast parts else parts) in
         (l \<noteq> [] \<and> list_all is_ascii_digit l) \<or> ipv4_number l \<noteq> None))"

definition ipv4_parses :: "string \<Rightarrow> bool" where
  "ipv4_parses input =
     (let parts0 = split_on (CHR ''.'') input;
          parts = (if last parts0 = [] \<and> 1 < length parts0 then butlast parts0 else parts0);
          numbers = map ipv4_number parts
      in if 4 < length parts then False
         else if list_ex (\<lambda>n. n = None) numbers then False
         else if list_ex (\<lambda>n. 255 < the n) (butlast numbers) then False
         else the (last numbers) < 256 ^ (5 - length numbers))"

definition has_xn_label :: "string \<Rightarrow> bool" where
  "has_xn_label d =
     list_ex (\<lambda>l. map ascii_lower (take 4 l) = ''xn--'') (split_on (CHR ''.'') d)"

definition host_parse :: "bool \<Rightarrow> string \<Rightarrow> verdict" where
  "host_parse isOpaque input =
     (if take 1 input = ''['' then (if last input = CHR '']'' then Unmodelled else Throws)
      else if isOpaque then
        (if list_ex forbidden_host_code_point input then Throws else Parses)
      else if list_ex (\<lambda>c. c = CHR ''%'' \<or> (128 :: nat) \<le> of_char c) input
              \<or> has_xn_label input
        then Unmodelled
      else if input = [] \<or> list_ex forbidden_domain_code_point input then Throws
      else if ends_in_a_number input then (if ipv4_parses input then Parses else Throws)
      else Parses)"

text \<open>
  The host state's buffer, and after a colon outside brackets the rest, which the port
  state reads.
\<close>

fun host_and_port :: "bool \<Rightarrow> string \<Rightarrow> string \<Rightarrow> string \<times> string option" where
  "host_and_port insideBrackets buffer [] = (buffer, None)"
| "host_and_port insideBrackets buffer (c # cs) =
     (if c = CHR '':'' \<and> \<not> insideBrackets then (buffer, Some cs)
      else host_and_port
             (if c = CHR ''['' then True else if c = CHR '']'' then False else insideBrackets)
             (buffer @ [c]) cs)"

definition port_parse :: "string \<Rightarrow> verdict" where
  "port_parse buffer =
     (if \<not> list_all is_ascii_digit buffer then Throws
      else if buffer \<noteq> [] \<and> 65535 < the (parse_radix 10 0 buffer) then Throws
      else Parses)"

definition after_last_at :: "string \<Rightarrow> string" where
  "after_last_at s = rev (takeWhile (\<lambda>c. c \<noteq> CHR ''@'') (rev s))"

definition authority_parse :: "bool \<Rightarrow> string \<Rightarrow> verdict" where
  "authority_parse special r =
     (let authority = takeWhile (\<lambda>c. \<not> is_authority_end special c) r;
          atSignSeen = (CHR ''@'' \<in> set authority);
          hostport = (if atSignSeen then after_last_at authority else authority)
      in if atSignSeen \<and> hostport = [] then Throws
         else
           (case host_and_port False [] hostport of
              (buffer, None) \<Rightarrow>
                if special \<and> buffer = [] then Throws else host_parse (\<not> special) buffer
            | (buffer, Some port) \<Rightarrow>
                if buffer = [] then Throws
                else (case host_parse (\<not> special) buffer of
                        Parses \<Rightarrow> port_parse port
                      | v \<Rightarrow> v)))"

definition is_windows_drive_letter :: "string \<Rightarrow> bool" where
  "is_windows_drive_letter s =
     (case s of [a, b] \<Rightarrow> is_ascii_alpha a \<and> (b = CHR '':'' \<or> b = CHR ''|'') | _ \<Rightarrow> False)"

definition file_parse :: "string \<Rightarrow> verdict" where
  "file_parse r =
     (case r of
        c1 # c2 # r' \<Rightarrow>
          if is_slash c1 \<and> is_slash c2 then
            (let buffer = takeWhile (\<lambda>c. \<not> is_authority_end True c) r'
             in if is_windows_drive_letter buffer \<or> buffer = [] then Parses
                else host_parse False buffer)
          else Parses
      | _ \<Rightarrow> Parses)"

definition URL_parse :: "string \<Rightarrow> verdict" where
  "URL_parse input =
     (case split_scheme (url_cleanup input) of
        None \<Rightarrow> Throws
      | Some (scheme, r) \<Rightarrow>
          if scheme = ''file'' then file_parse r
          else if is_special scheme then authority_parse True (dropWhile is_slash r)
          else (case r of
                  c1 # c2 # r' \<Rightarrow>
                    if c1 = CHR ''/'' \<and> c2 = CHR ''/'' then authority_parse False r'
                    else Parses
                | _ \<Rightarrow> Parses))"

text \<open>
  The constructor returns normally exactly when the parser succeeds. An input whose
  verdict is \<open>Unmodelled\<close> is not counted as accepted, though the platform accepts some
  of them; the concrete inputs below all have a verdict the model decides, and the
  statements about every input hold for any constructor or turn on rejected hosts only.
\<close>

definition new_URL :: "string \<Rightarrow> bool" where
  "new_URL input = (URL_parse input = Parses)"

section \<open>The scanner page\<close>

text \<open>
  The four state cells of \<^verbatim>\<open>ScannerPage\<close>:
  \<^verbatim>\<open>useState('')\<close>, \<^verbatim>\<open>useState(false)\<close>, \<^verbatim>\<open>useState<string | null>(null)\<close>,
  \<^verbatim>\<open>useState<ScanResult | null>(null)\<close>.
\<close>

record page =
  url :: string
  isScanning :: bool
  error :: "string option"
  result :: "ScanResult option"

definition initial_page :: page where
  "initial_page = \<lparr>url = [], isScanning = False, error = None, result = None\<rparr>"

text \<open>
  \<^verbatim>\<open>validateUrl\<close>, with the URL constructor as a parameter: \<open>URL_ok s\<close> says that
  \<^verbatim>\<open>new URL(s)\<close> returns, its negation that it throws and the \<^verbatim>\<open>catch\<close> returns false.
\<close>

definition urlToTest :: "string \<Rightarrow> string" where
  "urlToTest input = (if startsWith input ''http'' then input else ''https://'' @ input)"

definition validateUrl :: "(string \<Rightarrow> bool) \<Rightarrow> string \<Rightarrow> bool" where
  "validateUrl URL_ok input =
     (if trim input = [] then False
      else if URL_ok (urlToTest input) then True
      else False)"

text \<open>
  \<^verbatim>\<open>generateMockResult\<close> is imported from \<^verbatim>\<open>@/data/mockScanResults\<close>, which is not among
  the sources: the scan collaborator is a parameter. It returns a result or throws.
\<close>

datatype ScanError = ScanError string

type_synonym collaborator = "string \<Rightarrow> ScanError + ScanResult"

text \<open>
  The page together with what lies outside its state cells: the calls of
  \<^verbatim>\<open>handleScan\<close> that are suspended at \<^verbatim>\<open>await\<close>, each with the \<^verbatim>\<open>url\<close> its closure
  holds, in the order their timers were set; and the arguments the collaborator has
  been called with.
\<close>

record world =
  page :: page
  suspended :: "string list"
  scanned :: "string list"

definition initial_world :: world where
  "initial_world = \<lparr>page = initial_page, suspended = [], scanned = []\<rparr>"

definition validation_message :: string where
  "validation_message = ''Please enter a valid website URL.''"

text \<open>
  \<^verbatim>\<open>handleScan\<close> up to its \<^verbatim>\<open>await\<close>: the error is cleared, the input validated, and
  either the validation error is set and the function returns, or \<^verbatim>\<open>isScanning\<close> is
  set and the call is suspended on the timer.
\<close>

definition handleScan :: "(string \<Rightarrow> bool) \<Rightarrow> world \<Rightarrow> world" where
  "handleScan URL_ok w =
     (let p = (page w)\<lparr>error := None\<rparr> in
      if \<not> validateUrl URL_ok (url p) then
        w\<lparr>page := p\<lparr>error := Some validation_message\<rparr>\<rparr>
      else
        w\<lparr>page := p\<lparr>isScanning := True\<rparr>, suspended := suspended w @ [url p]\<rparr>)"

text \<open>
  \<^verbatim>\<open>handleScan\<close> after its \<^verbatim>\<open>await\<close>, for the call that captured \<open>u\<close>. When the
  collaborator throws, the exception leaves the async function: neither
  \<^verbatim>\<open>setResult\<close> nor \<^verbatim>\<open>setIsScanning(false)\<close> runs, and nothing catches it.
\<close>

definition formattedUrl :: "string \<Rightarrow> string" where
  "formattedUrl u = (if startsWith u ''http'' then u else ''https://'' @ u)"

definition handleScan_resume :: "collaborator \<Rightarrow> string \<Rightarrow> world \<Rightarrow> world" where
  "handleScan_resume generateMockResult u w =
     (let w1 = w\<lparr>scanned := scanned w @ [formattedUrl u]\<rparr> in
      case generateMockResult (formattedUrl u) of
        Inl e \<Rightarrow> w1
      | Inr scanResult \<Rightarrow>
          w1\<lparr>page := (page w1)\<lparr>result := Some scanResult, isScanning := False\<rparr>\<rparr>)"

text \<open>
  The events of the page. \<open>Change v\<close> is \<^verbatim>\<open>onChange\<close> of the input with the value \<open>v\<close>;
  \<open>Click\<close> activates the scan button; \<open>KeyDown k\<close> is \<^verbatim>\<open>onKeyDown\<close> of the input with
  the key \<open>k\<close>; \<open>TimerFires\<close> resumes the oldest suspended call; \<open>Render\<close> runs the
  component body, where \<^verbatim>\<open>sortedIssues\<close> is computed. The page renders after every
  change of its state; \<open>Render\<close> is an event of its own so that the state between a
  change and its render is a world too, and a run that follows the page has a \<open>Render\<close>
  after each other event. The input and the button carry
  \<^verbatim>\<open>disabled={isScanning}\<close>, so neither changes nor clicks arrive while scanning, and
  \<^verbatim>\<open>handleKeyDown\<close> tests \<^verbatim>\<open>!isScanning\<close> itself.
\<close>

datatype event = Change string | Click | KeyDown string | TimerFires | Render

definition handleKeyDown :: "(string \<Rightarrow> bool) \<Rightarrow> string \<Rightarrow> world \<Rightarrow> world" where
  "handleKeyDown URL_ok key w =
     (if key = ''Enter'' \<and> \<not> isScanning (page w) then handleScan URL_ok w else w)"

fun step :: "(string \<Rightarrow> bool) \<Rightarrow> collaborator \<Rightarrow> world \<Rightarrow> event \<Rightarrow> world" where
  "step URL_ok gen w (Change v) =
     (if isScanning (page w) then w else w\<lparr>page := (page w)\<lparr>url := v\<rparr>\<rparr>)"
| "step URL_ok gen w Click =
     (if isScanning (page w) then w else handleScan URL_ok w)"
| "step URL_ok gen w (KeyDown key) = handleKeyDown URL_ok key w"
| "step URL_ok gen w TimerFires =
     (case suspended w of
        [] \<Rightarrow> w
      | u # us \<Rightarrow> handleScan_resume gen u (w\<lparr>suspended := us\<rparr>))"
| "step URL_ok gen w Render =
     w\<lparr>page := (page w)\<lparr>result := fst (sortedIssues (result (page w)))\<rparr>\<rparr>"

definition run :: "(string \<Rightarrow> bool) \<Rightarrow> collaborator \<Rightarrow> world \<Rightarrow> event list \<Rightarrow> world" where
  "run URL_ok gen w evs = foldl (step URL_ok gen) w evs"

text \<open>
  Two collaborators for concrete runs: one that returns a result for the URL it is
  given, with three issues in the order minor, critical, moderate, and one that throws.
\<close>

definition sample_result :: "string \<Rightarrow> ScanResult" where
  "sample_result u =
     \<lparr>scanned_url = u, scanDate = ''2024-01-01T00:00:00.000Z'', score = 72,
      category = ''fair'',
      issues = [issue_of Minor ''a'', issue_of Critical ''b'', issue_of Moderate ''c''],
      complianceBadges = []\<rparr>"

definition resolving :: collaborator where
  "resolving u = Inr (sample_result u)"

definition rejecting :: collaborator where
  "rejecting u = Inl (ScanError ''scan failed'')"

text \<open>
  What holds of every world the page can reach: at most one call of \<^verbatim>\<open>handleScan\<close> is
  suspended, and only while \<^verbatim>\<open>isScanning\<close> is set; no error is shown while scanning; and
  the only error ever shown is the validation message.
\<close>

definition world_ok :: "world \<Rightarrow> bool" where
  "world_ok w =
     ((suspended w = [] \<or> (isScanning (page w) \<and> length (suspended w) = 1))
      \<and> (if isScanning (page w) then error (page w) = None
          else error (page w) = None \<or> error (page w) = Some validation_message))"

section \<open>Ranking: sorted, stable, a permutation\<close>

lemma array_insert_mset: "mset (array_insert cmp x ys) = add_mset x (mset ys)"
  by (induction ys) simp_all

lemma array_sort_mset: "mset (array_sort cmp xs) = mset xs"
  by (induction xs) (simp_all add: array_insert_mset)

lemma array_insert_set: "set (array_insert cmp x ys) = insert x (set ys)"
  by (induction ys) auto

lemma rank_insert_sorted:
  "sorted (map (\<lambda>i. severityOrder (severity i)) ys) \<Longrightarrow>
   sorted (map (\<lambda>i. severityOrder (severity i)) (array_insert compareSeverity x ys))"
proof (induction ys)
  case Nil
  then show ?case by simp
next
  case (Cons y ys)
  show ?case
  proof (cases "compareSeverity x y \<le> 0")
    case True
    then have "severityOrder (severity x) \<le> severityOrder (severity y)"
      by (simp add: compareSeverity_def)
    with Cons.prems True show ?thesis by auto
  next
    case False
    then have "severityOrder (severity y) \<le> severityOrder (severity x)"
      by (simp add: compareSeverity_def)
    with Cons False show ?thesis
      by (auto simp: array_insert_set)
  qed
qed

lemma rank_sorted: "sorted (map (\<lambda>i. severityOrder (severity i)) (rank xs))"
  unfolding rank_def by (induction xs) (simp_all add: rank_insert_sorted)

lemma rank_insert_filter_other:
  "severity x \<noteq> s \<Longrightarrow>
   filter (\<lambda>i. severity i = s) (array_insert compareSeverity x ys) =
   filter (\<lambda>i. severity i = s) ys"
  by (induction ys) simp_all

lemma rank_insert_filter_same:
  "sorted (map (\<lambda>i. severityOrder (severity i)) ys) \<Longrightarrow>
   filter (\<lambda>i. severity i = severity x) (array_insert compareSeverity x ys) =
   x # filter (\<lambda>i. severity i = severity x) ys"
proof (induction ys)
  case Nil
  then show ?case by simp
next
  case (Cons y ys)
  show ?case
  proof (cases "compareSeverity x y \<le> 0")
    case True
    then show ?thesis by simp
  next
    case False
    then have "severityOrder (severity y) < severityOrder (severity x)"
      by (simp add: compareSeverity_def)
    then have "severity y \<noteq> severity x"
      by auto
    with Cons False show ?thesis by simp
  qed
qed

lemma rank_stable:
  "filter (\<lambda>i. severity i = s) (rank xs) = filter (\<lambda>i. severity i = s) xs"
proof (induction xs)
  case Nil
  then show ?case by (simp add: rank_def)
next
  case (Cons x xs)
  have srt: "sorted (map (\<lambda>i. severityOrder (severity i)) (array_sort compareSeverity xs))"
    using rank_sorted [of xs] by (simp add: rank_def)
  show ?case
  proof (cases "severity x = s")
    case True
    with Cons rank_insert_filter_same [OF srt, of x] show ?thesis
      by (simp add: rank_def)
  next
    case False
    with Cons rank_insert_filter_other [of x s] show ?thesis
      by (simp add: rank_def)
  qed
qed

lemma sorted_by_severity_blocks:
  "sorted (map (\<lambda>i. severityOrder (severity i)) ys) \<Longrightarrow>
   ys = filter (\<lambda>i. severity i = Critical) ys
        @ filter (\<lambda>i. severity i = Moderate) ys
        @ filter (\<lambda>i. severity i = Minor) ys"
proof (induction ys)
  case Nil
  then show ?case by simp
next
  case (Cons y ys)
  then have ih: "ys = filter (\<lambda>i. severity i = Critical) ys
        @ filter (\<lambda>i. severity i = Moderate) ys
        @ filter (\<lambda>i. severity i = Minor) ys"
    by simp
  have le: "\<forall>i \<in> set ys. severityOrder (severity y) \<le> severityOrder (severity i)"
    using Cons.prems by simp
  show ?case
  proof (cases "severity y")
    case Critical
    with ih show ?thesis by simp
  next
    case Moderate
    with le have "\<forall>i \<in> set ys. severity i \<noteq> Critical"
      by fastforce
    then have "filter (\<lambda>i. severity i = Critical) ys = []"
      by (simp add: filter_empty_conv)
    with ih Moderate show ?thesis by simp
  next
    case Minor
    with le have "\<forall>i \<in> set ys. severity i \<noteq> Critical \<and> severity i \<noteq> Moderate"
      by fastforce
    then have "filter (\<lambda>i. severity i = Critical) ys = []"
      "filter (\<lambda>i. severity i = Moderate) ys = []"
      by (simp_all add: filter_empty_conv)
    with ih Minor show ?thesis by simp
  qed
qed

lemma rank_blocks:
  "rank xs = filter (\<lambda>i. severity i = Critical) xs
        @ filter (\<lambda>i. severity i = Moderate) xs
        @ filter (\<lambda>i. severity i = Minor) xs"
  using sorted_by_severity_blocks [OF rank_sorted, of xs] by (simp add: rank_stable)

text \<open>
  Claim C6. Ranking is a stable sort by severity under critical < moderate < minor: the
  ranked list is in non-decreasing severity order (so every adjacent pair is), the issues
  of each severity appear in the order they had in the input, nothing is lost or added,
  and the input order minor, critical, moderate comes out critical, moderate, minor.
  Whatever algorithm the sort uses, the ranked list is therefore the critical issues in
  input order, then the moderate ones, then the minor ones.
\<close>

theorem rank_is_stable_sort_by_severity:
  "sorted (map (\<lambda>i. severityOrder (severity i)) (rank xs))
   \<and> (\<forall>s. filter (\<lambda>i. severity i = s) (rank xs) = filter (\<lambda>i. severity i = s) xs)
   \<and> mset (rank xs) = mset xs
   \<and> rank xs = filter (\<lambda>i. severity i = Critical) xs
                @ filter (\<lambda>i. severity i = Moderate) xs
                @ filter (\<lambda>i. severity i = Minor) xs
   \<and> rank [issue_of Minor ''a'', issue_of Critical ''b'', issue_of Moderate ''c'']
       = [issue_of Critical ''b'', issue_of Moderate ''c'', issue_of Minor ''a'']"
proof -
  have ex: "rank [issue_of Minor ''a'', issue_of Critical ''b'', issue_of Moderate ''c'']
       = [issue_of Critical ''b'', issue_of Moderate ''c'', issue_of Minor ''a'']"
    by (simp add: rank_def compareSeverity_def issue_of_def)
  have perm: "mset (rank xs) = mset xs"
    using array_sort_mset [of compareSeverity xs] by (simp add: rank_def)
  show ?thesis
    using rank_sorted [of xs] rank_stable [of _ xs] perm rank_blocks [of xs] ex
    by blast
qed

lemma array_insert_front:
  "sorted (map (\<lambda>i. severityOrder (severity i)) (x # ys)) \<Longrightarrow>
   array_insert compareSeverity x ys = x # ys"
  by (cases ys) (auto simp: compareSeverity_def)

lemma rank_of_sorted:
  "sorted (map (\<lambda>i. severityOrder (severity i)) xs) \<Longrightarrow> rank xs = xs"
proof (induction xs)
  case Nil
  then show ?case by (simp add: rank_def)
next
  case (Cons x xs)
  then have "rank xs = xs" by simp
  with Cons.prems array_insert_front [of x xs] show ?case
    by (simp add: rank_def)
qed

lemma rank_fixed_iff:
  "rank xs = xs \<longleftrightarrow> sorted (map (\<lambda>i. severityOrder (severity i)) xs)"
  using rank_of_sorted [of xs] rank_sorted [of xs] by auto

text \<open>
  Claim C3, as amended. Ranking is not a view beside the stored result: the sort works on
  the array the stored result holds. After \<^verbatim>\<open>sortedIssues\<close> is computed the stored result
  has the ranked list as its issues (the same issues, and every other field as before),
  \<^verbatim>\<open>sortedIssues\<close> is that list, and the stored result is as it was exactly when its issues
  were already in severity order.
\<close>

theorem sortedIssues_sorts_stored_result:
  "fst (sortedIssues (Some r)) = Some (r\<lparr>issues := rank (issues r)\<rparr>)
   \<and> snd (sortedIssues (Some r)) = Some (rank (issues r))
   \<and> mset (rank (issues r)) = mset (issues r)
   \<and> (fst (sortedIssues (Some r)) = Some r
        \<longleftrightarrow> sorted (map (\<lambda>i. severityOrder (severity i)) (issues r)))"
proof -
  have "(r\<lparr>issues := rank (issues r)\<rparr> = r) = (rank (issues r) = issues r)"
    by (cases r) simp
  then show ?thesis
    using rank_fixed_iff [of "issues r"] array_sort_mset [of compareSeverity "issues r"]
    by (simp add: sortedIssues_def rank_def)
qed

text \<open>
  Claim C3 as stated fails: for a stored result whose issues are in the order minor,
  critical, moderate, the stored result after ranking is another one, with the issues in
  the order critical, moderate, minor.
\<close>

theorem sortedIssues_mutates_counterexample:
  "fst (sortedIssues (Some (sample_result ''https://example.com'')))
     \<noteq> Some (sample_result ''https://example.com'')
   \<and> map severity (issues (sample_result ''https://example.com''))
       = [Minor, Critical, Moderate]
   \<and> map severity
        (issues (the (fst (sortedIssues (Some (sample_result ''https://example.com''))))))
       = [Critical, Moderate, Minor]"
  by (simp add: sortedIssues_def sample_result_def rank_def compareSeverity_def issue_of_def)

section \<open>Validation\<close>

lemma trim_Nil_iff: "trim s = [] \<longleftrightarrow> list_all isWhiteSpace s"
proof -
  have "dropWhile isWhiteSpace (rev (dropWhile isWhiteSpace s)) = [] \<longleftrightarrow>
        (\<forall>c \<in> set (dropWhile isWhiteSpace s). isWhiteSpace c)"
    by (simp add: dropWhile_eq_Nil_conv)
  also have "\<dots> \<longleftrightarrow> (\<forall>c \<in> set s. isWhiteSpace c)"
  proof
    assume a: "\<forall>c \<in> set (dropWhile isWhiteSpace s). isWhiteSpace c"
    show "\<forall>c \<in> set s. isWhiteSpace c"
    proof
      fix c assume "c \<in> set s"
      then have "c \<in> set (takeWhile isWhiteSpace s) \<or> c \<in> set (dropWhile isWhiteSpace s)"
        by (metis Un_iff set_append takeWhile_dropWhile_id)
      with a show "isWhiteSpace c"
        by (auto dest: set_takeWhileD)
    qed
  next
    assume "\<forall>c \<in> set s. isWhiteSpace c"
    then show "\<forall>c \<in> set (dropWhile isWhiteSpace s). isWhiteSpace c"
      by (auto dest: set_dropWhileD)
  qed
  finally show ?thesis
    by (simp add: trim_def list_all_iff)
qed



lemma validateUrl_unfold: "validateUrl U input = (trim input \<noteq> [] \<and> U (urlToTest input))"
  by (simp add: validateUrl_def)

subsection \<open>The secure scheme followed by white space does not parse\<close>

lemma host_and_port_no_colon:
  "CHR '':'' \<notin> set cs \<Longrightarrow> host_and_port b buf cs = (buf @ cs, None)"
  by (induction cs arbitrary: b buf) auto

lemma split_scheme_https: "split_scheme (''https://'' @ t) = Some (''https'', ''//'' @ t)"
  by (simp add: is_ascii_alpha_def is_scheme_char_def is_ascii_digit_def ascii_lower_def)

lemma url_cleanup_https:
  "\<exists>t. url_cleanup (''https://'' @ s) = ''https://'' @ t
       \<and> set t \<subseteq> set s - {c. is_tab_or_newline c}"
proof -
  let ?P = is_c0_control_or_space
  let ?h = "''https://''"
  have h: "dropWhile ?P (?h @ s) = ?h @ s"
    by (simp add: is_c0_control_or_space_def)
  have "\<exists>s'. dropWhile ?P (rev (?h @ s)) = rev (?h @ s') \<and> set s' \<subseteq> set s"
  proof (cases "\<forall>c \<in> set (rev s). ?P c")
    case True
    then have "dropWhile ?P (rev s @ rev ?h) = dropWhile ?P (rev ?h)"
      by (simp add: dropWhile_append)
    then have "dropWhile ?P (rev (?h @ s)) = rev (?h @ [])"
      by (simp add: is_c0_control_or_space_def)
    then show ?thesis
      by (intro exI [of _ "[]"]) simp
  next
    case False
    then have "dropWhile ?P (rev s @ rev ?h) = dropWhile ?P (rev s) @ rev ?h"
      by (simp add: dropWhile_append)
    then have "dropWhile ?P (rev (?h @ s)) = rev (?h @ rev (dropWhile ?P (rev s)))"
      by simp
    moreover have "set (rev (dropWhile ?P (rev s))) \<subseteq> set s"
      using set_dropWhileD [of _ ?P "rev s"] by auto
    ultimately show ?thesis
      by (intro exI [of _ "rev (dropWhile ?P (rev s))"]) simp
  qed
  then obtain s' where s': "dropWhile ?P (rev (?h @ s)) = rev (?h @ s')" "set s' \<subseteq> set s"
    by blast
  have "url_cleanup (?h @ s) = filter (\<lambda>c. \<not> is_tab_or_newline c) (?h @ s')"
    unfolding url_cleanup_def h s'(1) by simp
  also have "\<dots> = ?h @ filter (\<lambda>c. \<not> is_tab_or_newline c) s'"
    by (simp add: is_tab_or_newline_def)
  finally show ?thesis
    using s'(2) by (intro exI [of _ "filter (\<lambda>c. \<not> is_tab_or_newline c) s'"]) auto
qed

lemma blank_host_rejected:
  assumes "\<forall>c \<in> set t. isWhiteSpace c \<and> \<not> is_tab_or_newline c"
  shows "authority_parse True (dropWhile is_slash t) \<noteq> Parses"
proof -
  have q: "\<forall>c \<in> set t. of_char c \<in> {11, 12, 32, 160 :: nat}"
    using assms by (auto simp: isWhiteSpace_def is_tab_or_newline_def)
  have ns: "\<forall>c \<in> set t. \<not> is_slash c"
    using q by (auto simp: is_slash_def)
  then have d: "dropWhile is_slash t = t"
    by (cases t) simp_all
  have ne: "\<forall>c \<in> set t. \<not> is_authority_end True c"
    using q by (auto simp: is_authority_end_def)
  then have a: "takeWhile (\<lambda>c. \<not> is_authority_end True c) t = t"
    by (simp add: takeWhile_eq_all_conv)
  have at: "CHR ''@'' \<notin> set t" and col: "CHR '':'' \<notin> set t"
    using q by auto
  have hp: "host_and_port False [] t = (t, None)"
    using host_and_port_no_colon [OF col, of False "[]"] by simp
  show ?thesis
  proof (cases t)
    case Nil
    then show ?thesis by (simp add: authority_parse_def)
  next
    case (Cons c cs)
    then have c: "of_char c \<in> {11, 12, 32, 160 :: nat}"
      using q by simp
    then have nb: "take 1 t \<noteq> ''[''"
      using Cons by auto
    have forb: "\<not> (128 :: nat) \<le> of_char c \<Longrightarrow> forbidden_domain_code_point c"
      using c by (auto simp: forbidden_domain_code_point_def forbidden_host_code_point_def)
    have "host_parse False t \<noteq> Parses"
      using nb forb Cons by (auto simp: host_parse_def)
    then show ?thesis
      using a at hp Cons unfolding d by (simp add: authority_parse_def Let_def)
  qed
qed

lemma blank_https_rejected:
  assumes "list_all isWhiteSpace s"
  shows "\<not> new_URL (''https://'' @ s)"
proof -
  obtain t where t: "url_cleanup (''https://'' @ s) = ''https://'' @ t"
      "set t \<subseteq> set s - {c. is_tab_or_newline c}"
    using url_cleanup_https by blast
  have "\<forall>c \<in> set t. isWhiteSpace c \<and> \<not> is_tab_or_newline c"
    using t(2) assms by (auto simp: list_all_iff)
  then have "authority_parse True (dropWhile is_slash t) \<noteq> Parses"
    by (rule blank_host_rejected)
  moreover have "dropWhile is_slash (''//'' @ t) = dropWhile is_slash t"
    by (simp add: is_slash_def)
  ultimately show ?thesis
    unfolding new_URL_def URL_parse_def t(1) split_scheme_https
    by (simp add: is_special_def)
qed

text \<open>
  Claim C5, as amended. The test for a scheme is whether the input starts with the four
  characters \<^verbatim>\<open>http\<close>. For every input that does not, validating it and validating it
  behind \<^verbatim>\<open>https://\<close> agree: when the input is not white space only, both hand the same
  string to the URL constructor, whatever that constructor accepts; when it is, the
  input is rejected before any parsing and the prefixed string does not parse.
\<close>

theorem validate_as_if_https_prefixed:
  assumes "\<not> startsWith input ''http''"
  shows "(trim input \<noteq> [] \<longrightarrow> validateUrl U input = validateUrl U (''https://'' @ input))
     \<and> validateUrl new_URL input = validateUrl new_URL (''https://'' @ input)"
proof -
  have g: "trim input \<noteq> [] \<Longrightarrow> validateUrl U input = validateUrl U (''https://'' @ input)"
    for U
    using assms
    by (simp add: validateUrl_unfold urlToTest_def startsWith_def trim_Nil_iff isWhiteSpace_def)
  have b: "validateUrl new_URL input = validateUrl new_URL (''https://'' @ input)"
    if e: "trim input = []"
  proof -
    have "\<not> new_URL (''https://'' @ input)"
      using e blank_https_rejected by (simp add: trim_Nil_iff)
    moreover have "urlToTest (''https://'' @ input) = ''https://'' @ input"
      by (simp add: urlToTest_def startsWith_def)
    ultimately show ?thesis
      using e by (simp add: validateUrl_unfold)
  qed
  show ?thesis
    using g b by blast
qed

theorem validate_as_if_https_prefixed_witness:
  "\<not> startsWith ''example.com'' ''http'' \<and> trim ''example.com'' \<noteq> []
   \<and> validateUrl new_URL ''example.com''
   \<and> validateUrl new_URL (''https://'' @ ''example.com'')"
proof -
  have a: "\<not> startsWith ''example.com'' ''http''" by code_simp
  have b: "trim ''example.com'' \<noteq> []" by code_simp
  have c: "validateUrl new_URL ''example.com''" by code_simp
  show ?thesis
    using validate_as_if_https_prefixed [OF a, of new_URL] a b c by simp
qed

text \<open>
  Claim C5 as stated fails: \<^verbatim>\<open>httpx.com\<close> has no scheme, it is rejected, and
  \<^verbatim>\<open>https://httpx.com\<close> is accepted.
\<close>

theorem http_prefixed_host_counterexample:
  "split_scheme ''httpx.com'' = None
   \<and> \<not> validateUrl new_URL ''httpx.com''
   \<and> validateUrl new_URL (''https://'' @ ''httpx.com'')"
  by code_simp

section \<open>The reachable worlds\<close>

lemma handleScan_resume_scanned [simp]:
  "scanned (handleScan_resume G u w) = scanned w @ [formattedUrl u]"
  by (simp add: handleScan_resume_def Let_def split: sum.splits)

lemma handleScan_resume_suspended [simp]:
  "suspended (handleScan_resume G u w) = suspended w"
  by (simp add: handleScan_resume_def Let_def split: sum.splits)

lemma handleScan_resume_page:
  "page (handleScan_resume G u w) =
     (case G (formattedUrl u) of
        Inl e \<Rightarrow> page w
      | Inr r \<Rightarrow> (page w)\<lparr>result := Some r, isScanning := False\<rparr>)"
  by (simp add: handleScan_resume_def Let_def split: sum.splits)

lemma handleScan_invalid:
  "\<not> validateUrl U (url (page w)) \<Longrightarrow>
   handleScan U w = w\<lparr>page := (page w)\<lparr>error := Some validation_message\<rparr>\<rparr>"
  by (simp add: handleScan_def Let_def)

lemma handleScan_valid:
  "validateUrl U (url (page w)) \<Longrightarrow>
   handleScan U w =
     w\<lparr>page := (page w)\<lparr>error := None, isScanning := True\<rparr>,
       suspended := suspended w @ [url (page w)]\<rparr>"
  by (simp add: handleScan_def Let_def)

lemma world_ok_initial: "world_ok initial_world"
  by (simp add: world_ok_def initial_world_def initial_page_def)

lemma world_ok_handleScan:
  "world_ok w \<Longrightarrow> \<not> isScanning (page w) \<Longrightarrow> world_ok (handleScan U w)"
  by (cases "validateUrl U (url (page w))")
     (auto simp: world_ok_def handleScan_invalid handleScan_valid)

lemma world_ok_step: "world_ok w \<Longrightarrow> world_ok (step U G w e)"
proof (cases e)
  case (Change v)
  then show "world_ok w \<Longrightarrow> ?thesis" by (auto simp: world_ok_def)
next
  case Click
  then show "world_ok w \<Longrightarrow> ?thesis" by (simp add: world_ok_handleScan)
next
  case (KeyDown k)
  then show "world_ok w \<Longrightarrow> ?thesis" by (simp add: handleKeyDown_def world_ok_handleScan)
next
  case TimerFires
  assume w: "world_ok w"
  show ?thesis
  proof (cases "suspended w")
    case Nil
    with w TimerFires show ?thesis by simp
  next
    case (Cons u us)
    with w have "us = []" "isScanning (page w)" "error (page w) = None"
      by (auto simp: world_ok_def)
    with Cons TimerFires show ?thesis
      by (auto simp: world_ok_def handleScan_resume_page split: sum.splits)
  qed
next
  case Render
  then show "world_ok w \<Longrightarrow> ?thesis" by (auto simp: world_ok_def)
qed

lemma world_ok_run: "world_ok w \<Longrightarrow> world_ok (run U G w evs)"
  unfolding run_def by (induction evs arbitrary: w) (simp_all add: world_ok_step)

lemma world_ok_reachable: "world_ok (run U G initial_world evs)"
  by (rule world_ok_run [OF world_ok_initial])

lemma timers_idle: "suspended w = [] \<Longrightarrow> run U G w (replicate n TimerFires) = w"
  by (induction n) (simp_all add: run_def)

section \<open>The scan workflow\<close>

text \<open>
  Claim C1, as amended. In every reachable state no error is held while a scan is in
  flight. Every submit clears the error before it validates: the error after the
  synchronous part of \<^verbatim>\<open>handleScan\<close> is the validation message when the input is invalid
  and null otherwise, whatever it was before. The result is not cleared by a submit: it
  is what it was.
\<close>

theorem error_cleared_on_submit_result_kept:
  "(isScanning (page (run U G initial_world evs)) \<longrightarrow>
      error (page (run U G initial_world evs)) = None)
   \<and> error (page (handleScan U w))
       = (if validateUrl U (url (page w)) then None else Some validation_message)
   \<and> result (page (handleScan U w)) = result (page w)"
  using world_ok_reachable [of U G evs]
  by (cases "validateUrl U (url (page w))")
     (auto simp: world_ok_def handleScan_valid handleScan_invalid)

theorem error_cleared_on_submit_result_kept_witness:
  "isScanning (page (run new_URL resolving initial_world
       [Render, Change [], Render, Click, Render, Change ''example.com'', Render, Click, Render]))
   \<and> error (page (run new_URL resolving initial_world
       [Render, Change [], Render, Click, Render])) = Some validation_message
   \<and> error (page (run new_URL resolving initial_world
       [Render, Change [], Render, Click, Render, Change ''example.com'', Render, Click, Render]))
       = None
   \<and> error (page (run new_URL resolving initial_world
       [Render, Change ''example.com'', Render, Click, Render, TimerFires, Render,
        Change [], Render, Click, Render, Change ''example.org'', Render]))
       = Some validation_message
   \<and> result (page (run new_URL resolving initial_world
       [Render, Change ''example.com'', Render, Click, Render, TimerFires, Render,
        Change [], Render, Click, Render, Change ''example.org'', Render]))
       = Some ((sample_result ''https://example.com'')
          \<lparr>issues := [issue_of Critical ''b'', issue_of Moderate ''c'', issue_of Minor ''a'']\<rparr>)
   \<and> error (page (handleScan new_URL (run new_URL resolving initial_world
       [Render, Change ''example.com'', Render, Click, Render, TimerFires, Render,
        Change [], Render, Click, Render, Change ''example.org'', Render])))
       = None
   \<and> result (page (handleScan new_URL (run new_URL resolving initial_world
       [Render, Change ''example.com'', Render, Click, Render, TimerFires, Render,
        Change [], Render, Click, Render, Change ''example.org'', Render])))
       = Some ((sample_result ''https://example.com'')
          \<lparr>issues := [issue_of Critical ''b'', issue_of Moderate ''c'', issue_of Minor ''a'']\<rparr>)"
proof -
  let ?scanning = "[Render, Change [], Render, Click, Render, Change ''example.com'', Render,
      Click, Render]"
  let ?failed = "[Render, Change ''example.com'', Render, Click, Render, TimerFires, Render,
      Change [], Render, Click, Render, Change ''example.org'', Render]"
  let ?ranked = "(sample_result ''https://example.com'')
          \<lparr>issues := [issue_of Critical ''b'', issue_of Moderate ''c'', issue_of Minor ''a'']\<rparr>"
  have s: "isScanning (page (run new_URL resolving initial_world ?scanning))"
    by code_simp
  have p: "error (page (run new_URL resolving initial_world
       [Render, Change [], Render, Click, Render])) = Some validation_message"
    by code_simp
  have e: "error (page (run new_URL resolving initial_world ?failed)) = Some validation_message"
    by code_simp
  have r: "result (page (run new_URL resolving initial_world ?failed)) = Some ?ranked"
    by code_simp
  have v: "validateUrl new_URL (url (page (run new_URL resolving initial_world ?failed)))"
    by code_simp
  show ?thesis
    using error_cleared_on_submit_result_kept
      [of new_URL resolving ?scanning "run new_URL resolving initial_world ?failed"] s p e r v
    by simp
qed

text \<open>
  Claim C1 as stated fails: after a scan of \<^verbatim>\<open>example.com\<close> has completed and been
  rendered, submitting the empty input leaves the validation error and the previous
  result, its issues ranked by the render, both set. The page is rendered after every
  event of the run.
\<close>

theorem error_and_result_both_set_counterexample:
  "error (page (run new_URL resolving initial_world
       [Render, Change ''example.com'', Render, Click, Render, TimerFires, Render,
        Change [], Render, Click, Render]))
     = Some validation_message
   \<and> result (page (run new_URL resolving initial_world
       [Render, Change ''example.com'', Render, Click, Render, TimerFires, Render,
        Change [], Render, Click, Render]))
     = Some ((sample_result ''https://example.com'')
          \<lparr>issues := [issue_of Critical ''b'', issue_of Moderate ''c'', issue_of Minor ''a'']\<rparr>)"
  by code_simp

text \<open>
  Claim C2, as amended. A submit, by the button or the Enter key, of an input that fails
  validation, in a reachable state that is not scanning, sets the validation message as
  the error, does not enter scanning, keeps the result, suspends no call, and the
  collaborator is not called, then or when timers fire afterwards. The input
  \<^verbatim>\<open>notaurl\<close> is not such an input.
\<close>

theorem invalid_submit_fails_without_scan:
  assumes "w = run U G initial_world evs"
    and "\<not> isScanning (page w)"
    and "\<not> validateUrl U (url (page w))"
    and "e = Click \<or> e = KeyDown ''Enter''"
  shows "error (page (step U G w e)) = Some validation_message
     \<and> \<not> isScanning (page (step U G w e))
     \<and> result (page (step U G w e)) = result (page w)
     \<and> suspended (step U G w e) = []
     \<and> scanned (run U G (step U G w e) (replicate n TimerFires)) = scanned w"
proof -
  have ok: "world_ok w"
    using assms(1) world_ok_reachable by simp
  with assms(2) have idle: "suspended w = []"
    by (auto simp: world_ok_def)
  have st: "step U G w e = w\<lparr>page := (page w)\<lparr>error := Some validation_message\<rparr>\<rparr>"
    using assms(2,3,4) by (auto simp: handleKeyDown_def handleScan_invalid)
  have "suspended (step U G w e) = []"
    using st idle by simp
  then have "run U G (step U G w e) (replicate n TimerFires) = step U G w e"
    by (rule timers_idle)
  then show ?thesis
    using st idle assms(2) by simp
qed

theorem invalid_submit_fails_without_scan_witness:
  "\<not> validateUrl new_URL ''not a url''
   \<and> error (page (step new_URL resolving
        (run new_URL resolving initial_world [Change ''not a url'']) Click))
      = Some validation_message
   \<and> \<not> isScanning (page (step new_URL resolving
        (run new_URL resolving initial_world [Change ''not a url'']) Click))
   \<and> scanned (run new_URL resolving
        (step new_URL resolving (run new_URL resolving initial_world [Change ''not a url''])
           Click)
        (replicate 3 TimerFires)) = []"
proof -
  have a: "\<not> isScanning (page (run new_URL resolving initial_world [Change ''not a url'']))"
    by code_simp
  have b: "\<not> validateUrl new_URL
      (url (page (run new_URL resolving initial_world [Change ''not a url''])))"
    by code_simp
  have c: "scanned (run new_URL resolving initial_world [Change ''not a url'']) = []"
    by code_simp
  have d: "\<not> validateUrl new_URL ''not a url''"
    by code_simp
  show ?thesis
    using invalid_submit_fails_without_scan [OF refl a b, of Click 3] c d by simp
qed

text \<open>
  Claim C2 as stated fails: \<^verbatim>\<open>notaurl\<close> is tested as \<^verbatim>\<open>https://notaurl\<close>, which parses.
  The submit enters scanning with no error, and the collaborator is called with
  \<^verbatim>\<open>https://notaurl\<close>.
\<close>

theorem notaurl_is_scanned_counterexample:
  "validateUrl new_URL ''notaurl''
   \<and> isScanning (page (run new_URL resolving initial_world [Change ''notaurl'', Click]))
   \<and> error (page (run new_URL resolving initial_world [Change ''notaurl'', Click])) = None
   \<and> scanned (run new_URL resolving initial_world [Change ''notaurl'', Click, TimerFires])
       = [''https://notaurl'']"
  by code_simp

text \<open>
  Claim C4, as amended. The page has no failure path for the collaborator. In every
  reachable state the error is null or the validation message. When the collaborator
  throws for the suspended call, the page's state is left as it was: still scanning,
  no error, the result unchanged; and a submit after that changes nothing.
\<close>

theorem collaborator_failure_leaves_scanning:
  assumes "w = run U G initial_world evs"
  shows "(error (page w) = None \<or> error (page w) = Some validation_message)
     \<and> (suspended w = u # us \<and> G (formattedUrl u) = Inl err \<longrightarrow>
          page (step U G w TimerFires) = page w
          \<and> isScanning (page (step U G w TimerFires))
          \<and> error (page (step U G w TimerFires)) = None
          \<and> step U G (step U G w TimerFires) Click = step U G w TimerFires
          \<and> step U G (step U G w TimerFires) (KeyDown ''Enter'') = step U G w TimerFires)"
proof -
  have ok: "world_ok w"
    using assms world_ok_reachable by simp
  then have e: "error (page w) = None \<or> error (page w) = Some validation_message"
    by (auto simp: world_ok_def split: if_splits)
  have f: "page (step U G w TimerFires) = page w
          \<and> isScanning (page (step U G w TimerFires))
          \<and> error (page (step U G w TimerFires)) = None
          \<and> step U G (step U G w TimerFires) Click = step U G w TimerFires
          \<and> step U G (step U G w TimerFires) (KeyDown ''Enter'') = step U G w TimerFires"
    if s: "suspended w = u # us" and g: "G (formattedUrl u) = Inl err"
  proof -
    from ok s have sc: "isScanning (page w)" and er: "error (page w) = None"
      by (auto simp: world_ok_def)
    have pg: "page (step U G w TimerFires) = page w"
      using s g by (simp add: handleScan_resume_page)
    show ?thesis
      using pg sc er by (simp add: handleKeyDown_def)
  qed
  show ?thesis
    using e f by blast
qed

theorem collaborator_failure_leaves_scanning_witness:
  "suspended (run new_URL rejecting initial_world [Change ''example.com'', Click])
     = [''example.com'']
   \<and> rejecting (formattedUrl ''example.com'') = Inl (ScanError ''scan failed'')
   \<and> page (step new_URL rejecting
        (run new_URL rejecting initial_world [Change ''example.com'', Click]) TimerFires)
     = \<lparr>url = ''example.com'', isScanning = True, error = None, result = None\<rparr>"
proof -
  have a: "suspended (run new_URL rejecting initial_world [Change ''example.com'', Click])
      = [''example.com'']"
    by code_simp
  have b: "rejecting (formattedUrl ''example.com'') = Inl (ScanError ''scan failed'')"
    by (simp add: rejecting_def)
  have c: "page (run new_URL rejecting initial_world [Change ''example.com'', Click])
     = \<lparr>url = ''example.com'', isScanning = True, error = None, result = None\<rparr>"
    by code_simp
  show ?thesis
    using collaborator_failure_leaves_scanning
      [OF refl, of new_URL rejecting "[Change ''example.com'', Click]" "''example.com''" "[]"
          "ScanError ''scan failed''"] a b c
    by simp
qed

text \<open>
  Claim C4 as stated fails: with a collaborator that throws, the scan of
  \<^verbatim>\<open>example.com\<close> ends with the page still scanning, without an error, and a further
  click changes nothing.
\<close>

theorem rejected_scan_does_not_fail_counterexample:
  "rejecting ''https://example.com'' = Inl (ScanError ''scan failed'')
   \<and> run new_URL rejecting initial_world [Change ''example.com'', Click, TimerFires]
     = \<lparr>page = \<lparr>url = ''example.com'', isScanning = True, error = None, result = None\<rparr>,
        suspended = [], scanned = [''https://example.com'']\<rparr>
   \<and> run new_URL rejecting initial_world [Change ''example.com'', Click, TimerFires, Click]
     = run new_URL rejecting initial_world [Change ''example.com'', Click, TimerFires]"
  by code_simp


text \<open>
  Claim C8. While the page is scanning, a click on the scan button, a key press in the
  input (the Enter key among them) and a change of the input leave the whole world as it
  is: the page's state, the suspended call and the calls made so far. In every reachable
  world at most one call is suspended.
\<close>

theorem submit_while_scanning_is_noop:
  "(isScanning (page w) \<longrightarrow>
      step U G w Click = w \<and> step U G w (KeyDown key) = w \<and> step U G w (Change v) = w)
   \<and> length (suspended (run U G initial_world evs)) \<le> 1"
  using world_ok_reachable [of U G evs]
  by (auto simp: handleKeyDown_def world_ok_def)

theorem submit_while_scanning_is_noop_witness:
  "isScanning (page (run new_URL resolving initial_world [Change ''example.com'', Click]))
   \<and> step new_URL resolving
        (run new_URL resolving initial_world [Change ''example.com'', Click]) Click
       = run new_URL resolving initial_world [Change ''example.com'', Click]
   \<and> step new_URL resolving
        (run new_URL resolving initial_world [Change ''example.com'', Click]) (KeyDown ''Enter'')
       = run new_URL resolving initial_world [Change ''example.com'', Click]
   \<and> suspended (run new_URL resolving initial_world [Change ''example.com'', Click])
       = [''example.com'']"
proof -
  have s: "isScanning (page (run new_URL resolving initial_world [Change ''example.com'', Click]))"
    by code_simp
  have t: "suspended (run new_URL resolving initial_world [Change ''example.com'', Click])
      = [''example.com'']"
    by code_simp
  show ?thesis
    using submit_while_scanning_is_noop
      [of "run new_URL resolving initial_world [Change ''example.com'', Click]"
          new_URL resolving "''Enter''" "''other.org''" "[Change ''example.com'', Click]"] s t
    by simp
qed





end
